theory Spec2Isabelle
  imports Main "HOL-Library.Multiset" "HOL-Library.Extended_Nat"
begin

text \<open>
  TinyLink: an Express server over one PostgreSQL table that maps short codes to URLs,
  redirects \<^verbatim>\<open>GET /:code\<close> and counts the visits. The theory models
  \<^verbatim>\<open>validators.js\<close>, the \<^verbatim>\<open>links\<close> table of the schema with the statements the program
  sends to it, the four handlers of \<^verbatim>\<open>routes/links.js\<close> and the redirect route of
  \<^verbatim>\<open>index.js\<close>. A field of a request is a string or absent. What the program takes from
  its environment is a parameter of the model: the URL parser of the runtime, the value
  of \<^verbatim>\<open>Math.random().toString(36)\<close>, and the clock of the database.
\<close>

section \<open>Strings\<close>

text \<open>
  A JavaScript string is a sequence of UTF-16 code units. The regular expressions of
  \<^verbatim>\<open>validators.js\<close> carry no flag, so they look at a string one code unit at a
  time, and \<^verbatim>\<open>length\<close> and \<^verbatim>\<open>slice\<close> count code units. A code unit is modelled
  by its number; \<open>js\<close> turns a literal of ASCII characters into such a string.
\<close>

type_synonym jsstring = "nat list"

definition js :: "string \<Rightarrow> jsstring" where
  "js s = map of_char s"

text \<open>
  \<^verbatim>\<open>String(v)\<close> for a value that is a string or \<^verbatim>\<open>undefined\<close> (a field the request
  does not have): \<^verbatim>\<open>RegExp.prototype.test\<close> and \<^verbatim>\<open>new URL\<close> convert their argument
  this way before they look at it.
\<close>

definition to_string :: "jsstring option \<Rightarrow> jsstring" where
  "to_string v = (case v of None \<Rightarrow> js ''undefined'' | Some s \<Rightarrow> s)"

text \<open>A string is falsy when it is empty, and so is \<^verbatim>\<open>undefined\<close>.\<close>

definition truthy :: "jsstring option \<Rightarrow> bool" where
  "truthy v = (case v of None \<Rightarrow> False | Some s \<Rightarrow> s \<noteq> [])"

text \<open>\<^verbatim>\<open>s.slice(b, e)\<close> for indices that are not negative.\<close>

definition slice :: "nat \<Rightarrow> nat \<Rightarrow> 'a list \<Rightarrow> 'a list" where
  "slice b e s = take (e - b) (drop b s)"

section \<open>The regular expressions of validators.js\<close>

text \<open>
  Both expressions of the file are anchored at both ends and are a sequence of pieces,
  each a set of characters with a repetition count: \<^verbatim>\<open>[A-Za-z0-9]{6,8}\<close> is one piece,
  \<^verbatim>\<open>[^\s@]+\<close> a piece repeated once or more, \<^verbatim>\<open>@\<close> a piece taken once.
  \<open>regex_test\<close> is \<^verbatim>\<open>/^...$/.test(s)\<close>: it tries every number of code units a piece
  may take, as the backtracking matcher does.
\<close>

datatype cset = Range char char | One char | Whitespace

fun in_cset :: "cset \<Rightarrow> nat \<Rightarrow> bool" where
  "in_cset (Range a b) u = (of_char a \<le> u \<and> u \<le> of_char b)"
| "in_cset (One a) u = (u = of_char a)"
| "in_cset Whitespace u =
     (u \<in> set [0x09, 0x0A, 0x0B, 0x0C, 0x0D, 0x20, 0xA0, 0x1680,
               0x2028, 0x2029, 0x202F, 0x205F, 0x3000, 0xFEFF]
      \<or> (0x2000 \<le> u \<and> u \<le> 0x200A))"

datatype atom = Class "cset list" | NotClass "cset list" | Lit char

fun atom_ok :: "atom \<Rightarrow> nat \<Rightarrow> bool" where
  "atom_ok (Class cs) u = list_ex (\<lambda>s. in_cset s u) cs"
| "atom_ok (NotClass cs) u = (\<not> list_ex (\<lambda>s. in_cset s u) cs)"
| "atom_ok (Lit a) u = (u = of_char a)"

datatype piece = Piece atom nat "nat option"

fun regex_test :: "piece list \<Rightarrow> jsstring \<Rightarrow> bool" where
  "regex_test [] s = (s = [])"
| "regex_test (Piece a lo hi # ps) s =
     list_ex (\<lambda>k. list_all (atom_ok a) (take k s) \<and> regex_test ps (drop k s))
       [lo ..< Suc (case hi of None \<Rightarrow> length s | Some h \<Rightarrow> min h (length s))]"

text \<open>\<^verbatim>\<open>^[A-Za-z0-9]{6,8}$\<close>, the pattern of \<^verbatim>\<open>isValidCode\<close> and of the table's
  \<^verbatim>\<open>code_format\<close> constraint.\<close>

definition code_pattern :: "piece list" where
  "code_pattern =
     [Piece (Class [Range CHR ''A'' CHR ''Z'', Range CHR ''a'' CHR ''z'',
                    Range CHR ''0'' CHR ''9'']) 6 (Some 8)]"

text \<open>\<^verbatim>\<open>[^\s@]\<close>\<close>

definition not_space_at :: atom where
  "not_space_at = NotClass [Whitespace, One CHR ''@'']"

text \<open>\<^verbatim>\<open>^[^\s@]+@[^\s@]+\.[^\s@]+$\<close>\<close>

definition email_pattern :: "piece list" where
  "email_pattern =
     [Piece not_space_at 1 None, Piece (Lit CHR ''@'') 1 (Some 1),
      Piece not_space_at 1 None, Piece (Lit CHR ''.'') 1 (Some 1),
      Piece not_space_at 1 None]"

section \<open>validators.js\<close>

definition isValidCode :: "jsstring \<Rightarrow> bool" where
  "isValidCode c = regex_test code_pattern c"

text \<open>
  \<^verbatim>\<open>new URL(u)\<close> belongs to the JavaScript runtime. \<open>isValidUrl\<close> takes it as the
  parameter \<open>url_protocol\<close>: \<open>None\<close> when the constructor throws, the \<^verbatim>\<open>protocol\<close> of
  the parsed URL otherwise.
\<close>

definition isValidUrl :: "(jsstring \<Rightarrow> jsstring option) \<Rightarrow> jsstring \<Rightarrow> bool" where
  "isValidUrl url_protocol u =
     (case url_protocol u of
        None \<Rightarrow> False
      | Some p \<Rightarrow> p = js ''http:'' \<or> p = js ''https:'')"

definition isValidEmail :: "jsstring \<Rightarrow> bool" where
  "isValidEmail e = regex_test email_pattern e"

section \<open>The links table\<close>

text \<open>
  A row of \<^verbatim>\<open>links\<close> as the schema declares it: \<^verbatim>\<open>id SERIAL\<close>, \<^verbatim>\<open>code VARCHAR(8)\<close>,
  \<^verbatim>\<open>target_url\<close> and \<^verbatim>\<open>email\<close> of type \<^verbatim>\<open>TEXT NOT NULL\<close>, \<^verbatim>\<open>total_clicks INTEGER\<close>
  (32 bits, signed), and two timestamps that may be \<^verbatim>\<open>NULL\<close>. A timestamp is a
  number of clock ticks.
\<close>

type_synonym timestamp = nat

record link =
  link_id :: nat
  code :: jsstring
  target_url :: jsstring
  email :: jsstring
  total_clicks :: int
  last_clicked :: "timestamp option"
  created_at :: "timestamp option"

text \<open>The table in storage order, and the sequence behind \<^verbatim>\<open>id SERIAL\<close> (its upper
  bound is left out).\<close>

record store =
  links :: "link list"
  links_id_seq :: nat

definition empty_store :: store where
  "empty_store = \<lparr>links = [], links_id_seq = 1\<rparr>"

text \<open>
  The errors the schema can raise, with the SQLSTATE the driver puts in \<^verbatim>\<open>err.code\<close>.
  The store is taken to be reachable: a statement fails only through the schema.
\<close>

datatype db_error =
    String_data_right_truncation
  | Not_null_violation
  | Check_violation
  | Unique_violation
  | Numeric_value_out_of_range

fun sqlstate :: "db_error \<Rightarrow> string" where
  "sqlstate String_data_right_truncation = ''22001''"
| "sqlstate Not_null_violation = ''23502''"
| "sqlstate Check_violation = ''23514''"
| "sqlstate Unique_violation = ''23505''"
| "sqlstate Numeric_value_out_of_range = ''22003''"

definition int4_max :: int where
  "int4_max = 2147483647"

text \<open>\<^verbatim>\<open>CHECK (code ~ '^[A-Za-z0-9]{6,8}$')\<close>\<close>

definition code_format :: "jsstring \<Rightarrow> bool" where
  "code_format c = regex_test code_pattern c"

text \<open>
  \<^verbatim>\<open>INSERT INTO links (code, target_url, email) VALUES ($1, $2, $3) RETURNING ...\<close>.
  The columns the statement leaves out take their defaults: the next value of the
  sequence, \<^verbatim>\<open>total_clicks = 0\<close>, \<^verbatim>\<open>last_clicked = NULL\<close>, \<^verbatim>\<open>created_at = now()\<close>.
  The row is then checked against the column types and constraints in the order the
  database checks them (the length of \<^verbatim>\<open>VARCHAR(8)\<close>, \<^verbatim>\<open>NOT NULL\<close>, \<^verbatim>\<open>code_format\<close>,
  \<^verbatim>\<open>UNIQUE\<close>). A sequence value that was drawn is not given back when the insert fails.
  \<open>varchar8\<close> is the assignment to \<^verbatim>\<open>VARCHAR(8)\<close>: SQL drops spaces past the eighth
  character and refuses anything else there. (It counts characters; on the codes the
  handlers send, which are no longer than eight code units, nothing is cut.)
\<close>

definition varchar8 :: "jsstring \<Rightarrow> db_error + jsstring" where
  "varchar8 c =
     (if length c \<le> 8 then Inr c
      else if list_all (\<lambda>u. u = 0x20) (drop 8 c) then Inr (take 8 c)
      else Inl String_data_right_truncation)"

definition insert_link ::
  "jsstring \<Rightarrow> jsstring option \<Rightarrow> jsstring option \<Rightarrow> timestamp \<Rightarrow> store
     \<Rightarrow> (db_error + link) \<times> store" where
  "insert_link c u e now st =
     (let st1 = st\<lparr>links_id_seq := Suc (links_id_seq st)\<rparr> in
      case varchar8 c of
        Inl err \<Rightarrow> (Inl err, st1)
      | Inr c' \<Rightarrow>
         (case (u, e) of
            (Some u', Some e') \<Rightarrow>
              if \<not> code_format c' then (Inl Check_violation, st1)
              else if list_ex (\<lambda>r. code r = c') (links st) then (Inl Unique_violation, st1)
              else
                (let row = \<lparr>link_id = links_id_seq st, code = c', target_url = u',
                            email = e', total_clicks = 0, last_clicked = None,
                            created_at = Some now\<rparr>
                 in (Inr row, st1\<lparr>links := links st @ [row]\<rparr>))
          | _ \<Rightarrow> (Inl Not_null_violation, st1)))"

text \<open>
  \<^verbatim>\<open>ORDER BY created_at DESC\<close>: the latest first, and \<^verbatim>\<open>NULL\<close> before every
  timestamp. SQL leaves the order of rows with equal timestamps open; the model takes
  one such order.
\<close>

definition created_key :: "link \<Rightarrow> enat" where
  "created_key r = (case created_at r of None \<Rightarrow> \<infinity> | Some t \<Rightarrow> enat t)"

definition order_by_created_at_desc :: "link list \<Rightarrow> link list" where
  "order_by_created_at_desc rs = rev (sort_key created_key rs)"

text \<open>\<^verbatim>\<open>SELECT ... FROM links WHERE email = $1 ORDER BY created_at DESC\<close>\<close>

definition select_links_by_email :: "jsstring \<Rightarrow> store \<Rightarrow> link list" where
  "select_links_by_email e st =
     order_by_created_at_desc (filter (\<lambda>r. email r = e) (links st))"

text \<open>\<^verbatim>\<open>SELECT ... FROM links ORDER BY created_at DESC\<close>\<close>

definition select_links :: "store \<Rightarrow> link list" where
  "select_links st = order_by_created_at_desc (links st)"

text \<open>\<^verbatim>\<open>SELECT ... FROM links WHERE code=$1\<close>, also the redirect's
  \<^verbatim>\<open>SELECT target_url FROM links WHERE code=$1\<close>.\<close>

definition select_link_by_code :: "jsstring \<Rightarrow> store \<Rightarrow> link list" where
  "select_link_by_code c st = filter (\<lambda>r. code r = c) (links st)"

text \<open>\<^verbatim>\<open>DELETE FROM links WHERE code=$1\<close>, with its \<^verbatim>\<open>rowCount\<close>.\<close>

definition delete_link_by_code :: "jsstring \<Rightarrow> store \<Rightarrow> nat \<times> store" where
  "delete_link_by_code c st =
     (length (filter (\<lambda>r. code r = c) (links st)),
      st\<lparr>links := filter (\<lambda>r. code r \<noteq> c) (links st)\<rparr>)"

text \<open>
  \<^verbatim>\<open>UPDATE links SET total_clicks = total_clicks + 1, last_clicked = now() WHERE code=$1\<close>.
  The addition is on 32-bit integers: past the largest one the statement fails and
  changes nothing.
\<close>

definition click :: "timestamp \<Rightarrow> link \<Rightarrow> link" where
  "click now r = r\<lparr>total_clicks := total_clicks r + 1, last_clicked := Some now\<rparr>"

definition update_clicks :: "jsstring \<Rightarrow> timestamp \<Rightarrow> store \<Rightarrow> (db_error + nat) \<times> store" where
  "update_clicks c now st =
     (if list_ex (\<lambda>r. code r = c \<and> int4_max < total_clicks r + 1) (links st)
      then (Inl Numeric_value_out_of_range, st)
      else (Inr (length (filter (\<lambda>r. code r = c) (links st))),
            st\<lparr>links := map (\<lambda>r. if code r = c then click now r else r) (links st)\<rparr>))"

section \<open>Responses\<close>

text \<open>
  What \<^verbatim>\<open>res.json\<close> sends. The driver returns a row as an object keyed by the names of
  the selected columns, in the order of the select list.
\<close>

datatype json =
    JNull
  | JNum int
  | JStr jsstring
  | JTime timestamp
  | JObj "(string \<times> json) list"
  | JArr "json list"

datatype column =
    Col_id | Col_code | Col_target_url | Col_email
  | Col_total_clicks | Col_last_clicked | Col_created_at

fun column_name :: "column \<Rightarrow> string" where
  "column_name Col_id = ''id''"
| "column_name Col_code = ''code''"
| "column_name Col_target_url = ''target_url''"
| "column_name Col_email = ''email''"
| "column_name Col_total_clicks = ''total_clicks''"
| "column_name Col_last_clicked = ''last_clicked''"
| "column_name Col_created_at = ''created_at''"

fun json_time :: "timestamp option \<Rightarrow> json" where
  "json_time None = JNull"
| "json_time (Some t) = JTime t"

fun column_value :: "column \<Rightarrow> link \<Rightarrow> json" where
  "column_value Col_id r = JNum (int (link_id r))"
| "column_value Col_code r = JStr (code r)"
| "column_value Col_target_url r = JStr (target_url r)"
| "column_value Col_email r = JStr (email r)"
| "column_value Col_total_clicks r = JNum (total_clicks r)"
| "column_value Col_last_clicked r = json_time (last_clicked r)"
| "column_value Col_created_at r = json_time (created_at r)"

text \<open>
  The select list of every query of \<^verbatim>\<open>routes/links.js\<close> and of the insert's
  \<^verbatim>\<open>RETURNING\<close>:
  \<^verbatim>\<open>id, code, target_url AS url, email, total_clicks, last_clicked, created_at\<close>.
\<close>

definition link_columns :: "(column \<times> string option) list" where
  "link_columns =
     [(Col_id, None), (Col_code, None), (Col_target_url, Some ''url''), (Col_email, None),
      (Col_total_clicks, None), (Col_last_clicked, None), (Col_created_at, None)]"

fun output_name :: "column \<times> string option \<Rightarrow> string" where
  "output_name (c, None) = column_name c"
| "output_name (c, Some alias) = alias"

definition row_json :: "link \<Rightarrow> json" where
  "row_json r = JObj (map (\<lambda>item. (output_name item, column_value (fst item) r)) link_columns)"

definition error_json :: "jsstring \<Rightarrow> json" where
  "error_json msg = JObj [(''error'', JStr msg)]"

text \<open>
  \<open>Json_resp n v\<close> is \<^verbatim>\<open>res.status(n).json(v)\<close>, \<open>Send_resp n s\<close> is
  \<^verbatim>\<open>res.status(n).send(s)\<close>, \<open>Redirect_resp n u\<close> is \<^verbatim>\<open>res.redirect(n, u)\<close>.
  \<open>Rejected e\<close>: a query outside any \<^verbatim>\<open>try\<close> failed, the handler's promise is
  rejected and the handler writes no response.
\<close>

datatype response =
    Json_resp nat json
  | Send_resp nat jsstring
  | Redirect_resp nat jsstring
  | Rejected db_error

section \<open>routes/links.js\<close>

text \<open>\<^verbatim>\<open>GET /api/links\<close>, with the \<^verbatim>\<open>email\<close> query parameter.\<close>

definition get_links :: "jsstring option \<Rightarrow> store \<Rightarrow> response" where
  "get_links email_param st =
     Json_resp 200 (JArr (map row_json
       (if truthy email_param then select_links_by_email (to_string email_param) st
        else select_links st)))"

text \<open>The body of \<^verbatim>\<open>POST /api/links\<close>: \<^verbatim>\<open>{ url, code?, email }\<close>.\<close>

record post_body =
  req_url :: "jsstring option"
  req_code :: "jsstring option"
  req_email :: "jsstring option"

text \<open>The text of the 400 answer for a custom code; its dash is U+2013.\<close>

definition custom_code_message :: jsstring where
  "custom_code_message = js ''Custom code must be 6'' @ [0x2013] @ js ''8 alphanumeric characters''"

text \<open>
  \<^verbatim>\<open>POST /api/links\<close>. \<open>random36\<close> is the value of \<^verbatim>\<open>Math.random().toString(36)\<close>,
  which the handler evaluates at most once; \<open>now\<close> is the time of the insert.
\<close>

definition post_links ::
  "(jsstring \<Rightarrow> jsstring option) \<Rightarrow> jsstring \<Rightarrow> timestamp \<Rightarrow> post_body \<Rightarrow> store
     \<Rightarrow> response \<times> store" where
  "post_links url_protocol random36 now body st =
     (if \<not> isValidUrl url_protocol (to_string (req_url body))
      then (Json_resp 400 (error_json (js ''Invalid URL'')), st)
      else if \<not> isValidEmail (to_string (req_email body))
      then (Json_resp 400 (error_json (js ''Invalid email'')), st)
      else if truthy (req_code body) \<and> \<not> isValidCode (to_string (req_code body))
      then (Json_resp 400 (error_json custom_code_message), st)
      else
        (let finalCode = (if truthy (req_code body) then to_string (req_code body)
                          else slice 2 10 random36)
         in case insert_link finalCode (req_url body) (req_email body) now st of
              (Inr row, st') \<Rightarrow> (Json_resp 201 (row_json row), st')
            | (Inl err, st') \<Rightarrow>
                if sqlstate err = ''23505''
                then (Json_resp 409 (error_json (js ''Custom code already in use'')), st')
                else (Json_resp 500 (error_json (js ''internal error'')), st')))"

text \<open>\<^verbatim>\<open>GET /api/links/:code\<close>\<close>

definition get_link :: "jsstring \<Rightarrow> store \<Rightarrow> response" where
  "get_link c st =
     (case select_link_by_code c st of
        [] \<Rightarrow> Json_resp 404 (error_json (js ''not found''))
      | r # _ \<Rightarrow> Json_resp 200 (row_json r))"

text \<open>\<^verbatim>\<open>DELETE /api/links/:code\<close>\<close>

definition delete_link :: "jsstring \<Rightarrow> store \<Rightarrow> response \<times> store" where
  "delete_link c st =
     (case delete_link_by_code c st of
        (n, st') \<Rightarrow>
          if n = 0 then (Json_resp 404 (error_json (js ''not found'')), st')
          else (Send_resp 204 [], st'))"

section \<open>index.js: the redirect route\<close>

text \<open>
  \<^verbatim>\<open>GET /:code\<close> awaits two queries. Between them the event loop may run other
  handlers, so each query is a step of its own: \<open>redirect_select\<close> runs up to the
  second \<^verbatim>\<open>await\<close> and yields the target it read, \<open>redirect_update\<close> is the rest.
\<close>

definition redirect_select :: "jsstring \<Rightarrow> store \<Rightarrow> response + jsstring" where
  "redirect_select c st =
     (case select_link_by_code c st of
        [] \<Rightarrow> Inl (Send_resp 404 (js ''Not found''))
      | r # _ \<Rightarrow> Inr (target_url r))"

definition redirect_update :: "jsstring \<Rightarrow> jsstring \<Rightarrow> timestamp \<Rightarrow> store \<Rightarrow> response \<times> store" where
  "redirect_update c target now st =
     (case update_clicks c now st of
        (Inl err, st') \<Rightarrow> (Rejected err, st')
      | (Inr n, st') \<Rightarrow> (Redirect_resp 302 target, st'))"

text \<open>The handler when nothing else runs between its two queries.\<close>

definition redirect :: "jsstring \<Rightarrow> timestamp \<Rightarrow> store \<Rightarrow> response \<times> store" where
  "redirect c now st =
     (case redirect_select c st of
        Inl resp \<Rightarrow> (resp, st)
      | Inr target \<Rightarrow> redirect_update c target now st)"

section \<open>Requests in flight\<close>

text \<open>
  The server handles requests on one event loop: a handler runs until it awaits a
  query, and the queries of different requests reach the store in any order. A request
  in flight is \<open>Pending\<close> before its first query, \<open>Awaiting_update\<close> when a redirect has
  read its target and not yet updated the counters, and \<open>Finished\<close> with its response.
  A \<^verbatim>\<open>POST\<close> carries the value its call of \<^verbatim>\<open>Math.random().toString(36)\<close> returns.
\<close>

datatype request =
    Get_links "jsstring option"
  | Post_links jsstring post_body
  | Get_link jsstring
  | Delete_link jsstring
  | Redirect jsstring

datatype thread =
    Pending request
  | Awaiting_update jsstring jsstring
  | Finished response

fun step ::
  "(jsstring \<Rightarrow> jsstring option) \<Rightarrow> timestamp \<Rightarrow> thread \<Rightarrow> store \<Rightarrow> thread \<times> store" where
  "step P now (Pending (Get_links e)) st = (Finished (get_links e st), st)"
| "step P now (Pending (Post_links rnd body)) st =
     (case post_links P rnd now body st of (resp, st') \<Rightarrow> (Finished resp, st'))"
| "step P now (Pending (Get_link c)) st = (Finished (get_link c st), st)"
| "step P now (Pending (Delete_link c)) st =
     (case delete_link c st of (resp, st') \<Rightarrow> (Finished resp, st'))"
| "step P now (Pending (Redirect c)) st =
     (case redirect_select c st of
        Inl resp \<Rightarrow> (Finished resp, st)
      | Inr target \<Rightarrow> (Awaiting_update c target, st))"
| "step P now (Awaiting_update c target) st =
     (case redirect_update c target now st of (resp, st') \<Rightarrow> (Finished resp, st'))"
| "step P now (Finished resp) st = (Finished resp, st)"

text \<open>
  A schedule is the list of the queries in the order they reach the store: which
  request's query, and the store's clock at that moment.
\<close>

fun run ::
  "(jsstring \<Rightarrow> jsstring option) \<Rightarrow> (nat \<times> timestamp) list \<Rightarrow> thread list \<Rightarrow> store
     \<Rightarrow> thread list \<times> store" where
  "run P [] ths st = (ths, st)"
| "run P ((i, now) # es) ths st =
     (if i < length ths
      then (case step P now (ths ! i) st of (th', st') \<Rightarrow> run P es (ths[i := th']) st')
      else run P es ths st)"

section \<open>The constraints of the schema\<close>

text \<open>
  What the table's column types and constraints keep true of a row: \<^verbatim>\<open>total_clicks\<close>
  is a 32-bit integer, \<^verbatim>\<open>code\<close> matches \<^verbatim>\<open>code_format\<close>; and what the statements of
  the program keep true of it: the counter is not negative, and while it is 0 there is
  no \<^verbatim>\<open>last_clicked\<close>.
\<close>

definition link_ok :: "link \<Rightarrow> bool" where
  "link_ok r =
     (0 \<le> total_clicks r \<and> total_clicks r \<le> int4_max
      \<and> (total_clicks r = 0 \<longrightarrow> last_clicked r = None)
      \<and> code_format (code r))"

text \<open>\<^verbatim>\<open>id\<close> is the primary key and comes from the sequence; \<^verbatim>\<open>code\<close> is
  \<^verbatim>\<open>UNIQUE\<close>.\<close>

definition store_ok :: "store \<Rightarrow> bool" where
  "store_ok st =
     (list_all link_ok (links st)
      \<and> distinct (map link_id (links st))
      \<and> distinct (map code (links st))
      \<and> list_all (\<lambda>r. link_id r < links_id_seq st) (links st))"

text \<open>
  \<open>grows st st'\<close>: every row of \<open>st'\<close> is a row of \<open>st\<close> (the same \<^verbatim>\<open>id\<close>) whose
  counter has not gone down, or was created after \<open>st\<close>.
\<close>

definition grows :: "store \<Rightarrow> store \<Rightarrow> bool" where
  "grows st st' =
     (links_id_seq st \<le> links_id_seq st'
      \<and> list_all (\<lambda>r'. list_ex (\<lambda>r. link_id r = link_id r' \<and> total_clicks r \<le> total_clicks r')
                          (links st)
                       \<or> links_id_seq st \<le> link_id r')
           (links st'))"

section \<open>Counting requests in flight\<close>







section \<open>Example values\<close>

text \<open>
  A stand-in for the runtime's URL parser in the examples: it accepts the strings that
  begin with \<^verbatim>\<open>https://\<close> and reports their protocol.
\<close>

definition https_only :: "jsstring \<Rightarrow> jsstring option" where
  "https_only u = (if take 8 u = js ''https://'' then Some (js ''https:'') else None)"

definition example_link :: link where
  "example_link =
     \<lparr>link_id = 1, code = js ''abc123'', target_url = js ''https://example.com'',
      email = js ''a@b.com'', total_clicks = 0, last_clicked = None, created_at = Some 10\<rparr>"

definition example_store :: store where
  "example_store = \<lparr>links = [example_link], links_id_seq = 2\<rparr>"

definition example_body :: "jsstring option \<Rightarrow> post_body" where
  "example_body c =
     \<lparr>req_url = Some (js ''https://example.com''), req_code = c,
      req_email = Some (js ''a@b.com'')\<rparr>"

definition other_link :: link where
  "other_link =
     \<lparr>link_id = 2, code = js ''XyZ98765'', target_url = js ''https://example.org/page'',
      email = js ''c@d.org'', total_clicks = 3, last_clicked = Some 40, created_at = Some 30\<rparr>"

definition two_links :: store where
  "two_links = \<lparr>links = [example_link, other_link], links_id_seq = 3\<rparr>"

text \<open>The row that the example request creates at time 20 with the generated code
  \<^verbatim>\<open>4fzyo82m\<close>, when the sequence stands at \<open>n\<close>.\<close>

definition created_link :: "nat \<Rightarrow> link" where
  "created_link n =
     \<lparr>link_id = n, code = js ''4fzyo82m'', target_url = js ''https://example.com'',
      email = js ''a@b.com'', total_clicks = 0, last_clicked = None, created_at = Some 20\<rparr>"

text \<open>A request that takes the code \<^verbatim>\<open>abc123\<close> for another destination, and the row it
  creates at time 32 when the sequence stands at 2.\<close>

definition other_body :: post_body where
  "other_body =
     \<lparr>req_url = Some (js ''https://other.example''), req_code = Some (js ''abc123''),
      req_email = Some (js ''c@d.org'')\<rparr>"

definition replaced_link :: link where
  "replaced_link =
     \<lparr>link_id = 2, code = js ''abc123'', target_url = js ''https://other.example'',
      email = js ''c@d.org'', total_clicks = 0, last_clicked = None, created_at = Some 32\<rparr>"

section \<open>Reading a response\<close>

text \<open>The field names of a JSON object, in the order they are sent.\<close>

definition field_names :: "json \<Rightarrow> string list" where
  "field_names j = (case j of JObj kvs \<Rightarrow> map fst kvs | _ \<Rightarrow> [])"

section \<open>The code validator\<close>

lemma regex_test_single:
  "regex_test [Piece a lo (Some hi)] s \<longleftrightarrow>
     lo \<le> length s \<and> length s \<le> hi \<and> list_all (atom_ok a) s"
  by (auto simp: list_ex_iff)

lemma alnum_class:
  "atom_ok (Class [Range CHR ''A'' CHR ''Z'', Range CHR ''a'' CHR ''z'',
                   Range CHR ''0'' CHR ''9'']) u
   \<longleftrightarrow> (65 \<le> u \<and> u \<le> 90) \<or> (97 \<le> u \<and> u \<le> 122) \<or> (48 \<le> u \<and> u \<le> 57)"
  by simp

lemma isValidCode_chars:
  "isValidCode c \<longleftrightarrow>
     6 \<le> length c \<and> length c \<le> 8 \<and>
     (\<forall>u \<in> set c. (65 \<le> u \<and> u \<le> 90) \<or> (97 \<le> u \<and> u \<le> 122) \<or> (48 \<le> u \<and> u \<le> 57))"
  unfolding isValidCode_def code_pattern_def regex_test_single list_all_iff alnum_class ..

lemma isValidCode_length: "isValidCode c \<Longrightarrow> length c \<le> 8 \<and> c \<noteq> []"
  by (auto simp: isValidCode_chars)

text \<open>
  C4. \<open>isValidCode c\<close> holds exactly when \<open>c\<close> has 6 to 8 code units and each of them
  is an ASCII letter (\<open>A\<close> to \<open>Z\<close> is 65 to 90, \<open>a\<close> to \<open>z\<close> is 97 to 122) or an ASCII
  digit (48 to 57). Every other string is refused: the empty one, one that is too
  short or too long, one with \<open>-\<close>, \<open>_\<close>, a space or a character outside ASCII.
\<close>

theorem isValidCode_iff:
  "isValidCode c \<longleftrightarrow>
     6 \<le> length c \<and> length c \<le> 8 \<and>
     (\<forall>u \<in> set c. (65 \<le> u \<and> u \<le> 90) \<or> (97 \<le> u \<and> u \<le> 122) \<or> (48 \<le> u \<and> u \<le> 57))"
  by (rule isValidCode_chars)

theorem isValidCode_iff_witness:
  "isValidCode (js ''abc123'') \<and> isValidCode (js ''ABCxyz09'') \<and> \<not> isValidCode []
   \<and> \<not> isValidCode (js ''abc12'') \<and> \<not> isValidCode (js ''abcdefghi'')
   \<and> \<not> isValidCode (js ''abc-12'') \<and> \<not> isValidCode (js ''abc_12'')
   \<and> \<not> isValidCode (js ''abc 12'') \<and> \<not> isValidCode (js ''abcde'' @ [0xE9])
   \<and> \<not> isValidCode (js ''abcde'' @ [0x4E2D])"
  using isValidCode_iff [of "js ''abc123''"] isValidCode_iff [of "js ''ABCxyz09''"]
    isValidCode_iff [of "[]"] isValidCode_iff [of "js ''abc12''"]
    isValidCode_iff [of "js ''abcdefghi''"] isValidCode_iff [of "js ''abc-12''"]
    isValidCode_iff [of "js ''abc_12''"] isValidCode_iff [of "js ''abc 12''"]
    isValidCode_iff [of "js ''abcde'' @ [0xE9]"] isValidCode_iff [of "js ''abcde'' @ [0x4E2D]"]
  by (simp add: js_def)

lemma varchar8_short: "length c \<le> 8 \<Longrightarrow> varchar8 c = Inr c"
  by (simp add: varchar8_def)

lemma select_none: "\<not> list_ex (\<lambda>r. code r = c) (links st) \<Longrightarrow> select_link_by_code c st = []"
  by (simp add: select_link_by_code_def list_ex_iff filter_empty_conv)

section \<open>Resolution of an unknown code\<close>

text \<open>
  C8. For a code that no row of the table has, the redirect handler answers 404
  \<^verbatim>\<open>Not found\<close> and leaves the store as it was; it is finished after its first query.
\<close>

theorem redirect_unknown_code:
  assumes "\<not> list_ex (\<lambda>r. code r = c) (links st)"
  shows "redirect c now st = (Send_resp 404 (js ''Not found''), st)
       \<and> step P now (Pending (Redirect c)) st = (Finished (Send_resp 404 (js ''Not found'')), st)"
  using assms by (simp add: redirect_def redirect_select_def select_none)

theorem redirect_unknown_code_witness:
  "redirect (js ''nosuch'') 20 example_store = (Send_resp 404 (js ''Not found''), example_store)
   \<and> step https_only 20 (Pending (Redirect (js ''nosuch''))) example_store
       = (Finished (Send_resp 404 (js ''Not found'')), example_store)"
  using redirect_unknown_code [of "js ''nosuch''" example_store 20 https_only]
  by (simp add: example_store_def example_link_def js_def)

section \<open>Creation with a custom code\<close>

lemma post_links_insert:
  assumes "req_url body = Some u" "isValidUrl P u" "req_email body = Some e" "isValidEmail e"
    and "req_code body = Some c" "isValidCode c"
  shows "post_links P rnd now body st =
     (case insert_link c (Some u) (Some e) now st of
              (Inr row, st') \<Rightarrow> (Json_resp 201 (row_json row), st')
            | (Inl err, st') \<Rightarrow>
                if sqlstate err = ''23505''
                then (Json_resp 409 (error_json (js ''Custom code already in use'')), st')
                else (Json_resp 500 (error_json (js ''internal error'')), st'))"
  using assms isValidCode_length[of c]
  by (simp add: post_links_def to_string_def truthy_def)

lemma insert_link_taken:
  assumes "isValidCode c" "list_ex (\<lambda>r. code r = c) (links st)"
  shows "insert_link c (Some u) (Some e) now st = (Inl Unique_violation, st\<lparr>links_id_seq := Suc (links_id_seq st)\<rparr>)"
  using assms isValidCode_length[of c]
  by (simp add: insert_link_def varchar8_short code_format_def isValidCode_def Let_def)

lemma insert_link_free:
  assumes "isValidCode c" "\<not> list_ex (\<lambda>r. code r = c) (links st)"
  shows "insert_link c (Some u) (Some e) now st =
     (Inr \<lparr>link_id = links_id_seq st, code = c, target_url = u,
                            email = e, total_clicks = 0, last_clicked = None,
                            created_at = Some now\<rparr>,
      \<lparr>links = links st @ [\<lparr>link_id = links_id_seq st, code = c, target_url = u,
                            email = e, total_clicks = 0, last_clicked = None,
                            created_at = Some now\<rparr>], links_id_seq = Suc (links_id_seq st)\<rparr>)"
  using assms isValidCode_length[of c]
  by (simp add: insert_link_def varchar8_short code_format_def isValidCode_def Let_def)

lemma https_only_example: "isValidUrl https_only (js ''https://example.com'')"
  by (simp add: isValidUrl_def https_only_def js_def)

lemma isValidEmail_example: "isValidEmail (js ''a@b.com'')"
  by (simp add: isValidEmail_def email_pattern_def not_space_at_def js_def)

lemma isValidCode_example: "isValidCode (js ''abc123'')"
  by (simp add: isValidCode_def code_pattern_def js_def)

text \<open>
  C6. A request with a valid url and email and a well-formed custom code that a row of
  the table already has is answered 409 \<^verbatim>\<open>Custom code already in use\<close>; the
  table is unchanged (only the sequence has moved on), and no other code is put in its
  place. When the code is free the request creates the row, and a second request
  with the same code is then answered 409 and leaves the table as the first made it.
\<close>

theorem post_links_taken_code:
  assumes "req_url body = Some u" "isValidUrl P u" "req_email body = Some e" "isValidEmail e"
    and "req_code body = Some c" "isValidCode c"
    and "req_url body' = Some u'" "isValidUrl P u'" "req_email body' = Some e'" "isValidEmail e'"
    and "req_code body' = Some c"
  shows "(list_ex (\<lambda>r. code r = c) (links st) \<longrightarrow>
            post_links P rnd now body st =
              (Json_resp 409 (error_json (js ''Custom code already in use'')),
               st\<lparr>links_id_seq := Suc (links_id_seq st)\<rparr>))
       \<and> (\<not> list_ex (\<lambda>r. code r = c) (links st) \<longrightarrow>
            (\<exists>row st1.
               post_links P rnd now body st = (Json_resp 201 (row_json row), st1)
               \<and> code row = c \<and> links st1 = links st @ [row]
               \<and> post_links P rnd' now' body' st1 =
                   (Json_resp 409 (error_json (js ''Custom code already in use'')),
                    st1\<lparr>links_id_seq := Suc (links_id_seq st1)\<rparr>)))"
proof (intro conjI impI)
  assume taken: "list_ex (\<lambda>r. code r = c) (links st)"
  show "post_links P rnd now body st =
              (Json_resp 409 (error_json (js ''Custom code already in use'')),
               st\<lparr>links_id_seq := Suc (links_id_seq st)\<rparr>)"
    using assms(1-6) taken by (simp add: post_links_insert insert_link_taken)
next
  assume free: "\<not> list_ex (\<lambda>r. code r = c) (links st)"
  define row where "row = \<lparr>link_id = links_id_seq st, code = c, target_url = u,
      email = e, total_clicks = 0, last_clicked = None, created_at = Some now\<rparr>"
  define st1 where "st1 = \<lparr>links = links st @ [row], links_id_seq = Suc (links_id_seq st)\<rparr>"
  have first: "post_links P rnd now body st = (Json_resp 201 (row_json row), st1)"
    using assms(1-6) free by (simp add: post_links_insert insert_link_free row_def st1_def)
  have "list_ex (\<lambda>r. code r = c) (links st1)"
    by (simp add: st1_def row_def)
  then have second: "post_links P rnd' now' body' st1 =
      (Json_resp 409 (error_json (js ''Custom code already in use'')),
       st1\<lparr>links_id_seq := Suc (links_id_seq st1)\<rparr>)"
    using assms(6-11) by (simp add: post_links_insert insert_link_taken)
  show "\<exists>row st1.
               post_links P rnd now body st = (Json_resp 201 (row_json row), st1)
               \<and> code row = c \<and> links st1 = links st @ [row]
               \<and> post_links P rnd' now' body' st1 =
                   (Json_resp 409 (error_json (js ''Custom code already in use'')),
                    st1\<lparr>links_id_seq := Suc (links_id_seq st1)\<rparr>)"
    using first second by (intro exI[of _ row] exI[of _ st1]) (simp add: row_def st1_def)
qed

theorem post_links_taken_code_witness:
  "post_links https_only (js ''0.4fzyo82mvyr'') 20 (example_body (Some (js ''abc123''))) example_store =
     (Json_resp 409 (error_json (js ''Custom code already in use'')),
      example_store\<lparr>links_id_seq := 3\<rparr>)
   \<and> (\<exists>row st1.
        post_links https_only (js ''0.4fzyo82mvyr'') 20 (example_body (Some (js ''abc123''))) empty_store
          = (Json_resp 201 (row_json row), st1)
        \<and> code row = js ''abc123'' \<and> links st1 = [row]
        \<and> post_links https_only (js ''0.zzzzzzzzzz'') 30 (example_body (Some (js ''abc123''))) st1
            = (Json_resp 409 (error_json (js ''Custom code already in use'')),
               st1\<lparr>links_id_seq := Suc (links_id_seq st1)\<rparr>))"
  using post_links_taken_code [of "example_body (Some (js ''abc123''))" "js ''https://example.com''"
      https_only "js ''a@b.com''" "js ''abc123''" "example_body (Some (js ''abc123''))"
      "js ''https://example.com''" "js ''a@b.com''" example_store "js ''0.4fzyo82mvyr''" 20
      "js ''0.zzzzzzzzzz''" 30]
    post_links_taken_code [of "example_body (Some (js ''abc123''))" "js ''https://example.com''"
      https_only "js ''a@b.com''" "js ''abc123''" "example_body (Some (js ''abc123''))"
      "js ''https://example.com''" "js ''a@b.com''" empty_store "js ''0.4fzyo82mvyr''" 20
      "js ''0.zzzzzzzzzz''" 30]
    https_only_example isValidEmail_example isValidCode_example
  by (simp add: example_body_def example_store_def example_link_def empty_store_def)

section \<open>Creation: malformed and generated codes\<close>

lemmas post_links_eval =
  post_links_def example_body_def example_store_def example_link_def empty_store_def
  created_link_def to_string_def truthy_def isValidUrl_def https_only_def isValidEmail_def
  email_pattern_def not_space_at_def isValidCode_def code_pattern_def slice_def
  insert_link_def varchar8_def code_format_def Let_def js_def

lemma post_example_created:
  "post_links https_only (js ''0.4fzyo82mvyr'') 20 (example_body None) example_store =
     (Json_resp 201 (row_json (created_link 2)),
      \<lparr>links = [example_link, created_link 2], links_id_seq = 3\<rparr>)"
  by (simp add: post_links_eval)

text \<open>
  C5, as stated, fails for the empty string: \<^verbatim>\<open>if (finalCode)\<close> takes an
  empty custom code for no code at all, so the request is not refused; a code is
  generated and the row is created.
\<close>

theorem post_links_empty_code_counterexample:
  "\<not> isValidCode [] \<and>
   post_links https_only (js ''0.4fzyo82mvyr'') 20 (example_body (Some [])) empty_store =
     (Json_resp 201 (row_json (created_link 1)),
      \<lparr>links = [created_link 1], links_id_seq = 2\<rparr>)"
  by (simp add: post_links_eval)

text \<open>
  C5, amended. A request whose custom code is not empty and fails \<open>isValidCode\<close> is
  answered 400 and the store is left exactly as it was: no statement reaches it. The
  message is the one of the first check that fails (url, then email, then code). A
  request whose custom code is the empty string is not refused for its code: it is
  handled exactly as the same request without a code.
\<close>

theorem post_links_malformed_code:
  "(req_code body = Some c \<and> c \<noteq> [] \<and> \<not> isValidCode c \<longrightarrow>
      post_links P rnd now body st =
        (Json_resp 400 (error_json
           (if \<not> isValidUrl P (to_string (req_url body)) then js ''Invalid URL''
            else if \<not> isValidEmail (to_string (req_email body)) then js ''Invalid email''
            else custom_code_message)), st))
   \<and> post_links P rnd now (body\<lparr>req_code := Some []\<rparr>) st
       = post_links P rnd now (body\<lparr>req_code := None\<rparr>) st"
  by (simp add: post_links_def truthy_def to_string_def)

theorem post_links_malformed_code_witness:
  "post_links https_only (js ''0.4fzyo82mvyr'') 20 (example_body (Some (js ''abc-12''))) example_store
     = (Json_resp 400 (error_json custom_code_message), example_store)
   \<and> post_links https_only (js ''0.abc123'') 20 (example_body (Some [])) example_store
     = post_links https_only (js ''0.abc123'') 20 (example_body None) example_store"
proof -
  have bad: "req_code (example_body (Some (js ''abc-12''))) = Some (js ''abc-12'')
      \<and> js ''abc-12'' \<noteq> [] \<and> \<not> isValidCode (js ''abc-12'')"
    by (simp add: example_body_def isValidCode_def code_pattern_def js_def)
  have a: "post_links https_only (js ''0.4fzyo82mvyr'') 20 (example_body (Some (js ''abc-12''))) example_store
     = (Json_resp 400 (error_json custom_code_message), example_store)"
    using post_links_malformed_code [of "example_body (Some (js ''abc-12''))" "js ''abc-12''"
        https_only "js ''0.4fzyo82mvyr''" 20 example_store, THEN conjunct1, THEN mp, OF bad]
      https_only_example isValidEmail_example
    by (simp add: example_body_def to_string_def)
  have b: "post_links https_only (js ''0.abc123'') 20 (example_body (Some [])) example_store
     = post_links https_only (js ''0.abc123'') 20 (example_body None) example_store"
    using post_links_malformed_code [of "example_body None" _ https_only "js ''0.abc123''" 20
        example_store, THEN conjunct2]
    by (simp add: example_body_def)
  from a b show ?thesis by simp
qed

text \<open>
  C2, as stated, fails: the handler has no retry. With no custom code and
  the generated code \<^verbatim>\<open>abc123\<close> already in the table, the one insert fails and the
  answer is 409 \<^verbatim>\<open>Custom code already in use\<close>, not an exhaustion error, although
  another draw (\<^verbatim>\<open>4fzyo82m\<close>) would have been free.
\<close>

theorem post_links_collision_counterexample:
  "post_links https_only (js ''0.abc123'') 20 (example_body None) example_store =
     (Json_resp 409 (error_json (js ''Custom code already in use'')),
      \<lparr>links = [example_link], links_id_seq = 3\<rparr>)
   \<and> post_links https_only (js ''0.4fzyo82mvyr'') 20 (example_body None) example_store =
     (Json_resp 201 (row_json (created_link 2)),
      \<lparr>links = [example_link, created_link 2], links_id_seq = 3\<rparr>)"
  by (simp add: post_links_eval)

text \<open>
  C2, amended. For a request with a valid url and email and no custom code, when the
  store reports a duplicate code for the generated candidate, the handler does not try
  again: it answers 409 \<^verbatim>\<open>Custom code already in use\<close> after that one insert (the
  sequence has moved by one), and the table is unchanged.
\<close>

theorem post_links_generated_collision:
  assumes "isValidUrl P (to_string (req_url body))" "isValidEmail (to_string (req_email body))"
    and "\<not> truthy (req_code body)"
    and "insert_link (slice 2 10 rnd) (req_url body) (req_email body) now st
           = (Inl Unique_violation, st')"
  shows "post_links P rnd now body st =
           (Json_resp 409 (error_json (js ''Custom code already in use'')), st')
         \<and> links st' = links st \<and> links_id_seq st' = Suc (links_id_seq st)"
  using assms
  by (auto simp add: post_links_def insert_link_def Let_def
      split: sum.splits option.splits if_splits)

theorem post_links_generated_collision_witness:
  "post_links https_only (js ''0.abc123'') 20 (example_body None) example_store =
     (Json_resp 409 (error_json (js ''Custom code already in use'')),
      example_store\<lparr>links_id_seq := 3\<rparr>)
   \<and> links (example_store\<lparr>links_id_seq := 3\<rparr>) = links example_store
   \<and> links_id_seq (example_store\<lparr>links_id_seq := 3\<rparr>) = Suc (links_id_seq example_store)"
proof -
  have ins: "insert_link (slice 2 10 (js ''0.abc123'')) (req_url (example_body None))
        (req_email (example_body None)) 20 example_store
      = (Inl Unique_violation, example_store\<lparr>links_id_seq := 3\<rparr>)"
    by (simp add: example_body_def example_store_def example_link_def slice_def insert_link_def
        varchar8_def code_format_def code_pattern_def js_def)
  show ?thesis
    using post_links_generated_collision [OF _ _ _ ins, of https_only]
      https_only_example isValidEmail_example
    by (simp add: example_body_def to_string_def truthy_def)
qed

text \<open>
  C3 fails on the code. \<^verbatim>\<open>Math.random()\<close> can return 0.5, whose base-36 form is
  \<^verbatim>\<open>0.i\<close> (18/36); \<^verbatim>\<open>slice(2, 10)\<close> of it is the one-character code \<^verbatim>\<open>i\<close>, which
  \<open>isValidCode\<close> refuses. The table's \<^verbatim>\<open>code_format\<close> constraint refuses it too, and
  the request, valid as it is, is answered 500.
\<close>

theorem post_links_short_random:
  "slice 2 10 (js ''0.i'') = js ''i'' \<and> \<not> isValidCode (js ''i'')
   \<and> post_links https_only (js ''0.i'') 20 (example_body None) empty_store =
       (Json_resp 500 (error_json (js ''internal error'')), \<lparr>links = [], links_id_seq = 2\<rparr>)"
  by (simp add: post_links_eval)

section \<open>The fields of a record in a response\<close>

lemma field_names_row_json:
  "field_names (row_json r) =
     [''id'', ''code'', ''url'', ''email'', ''total_clicks'', ''last_clicked'', ''created_at'']"
  by (simp add: field_names_def row_json_def link_columns_def)

lemma post_links_201:
  "post_links P rnd now body st = (Json_resp 201 j, st') \<Longrightarrow> \<exists>row. j = row_json row"
  by (auto simp: post_links_def Let_def error_json_def split: if_splits prod.splits sum.splits)

text \<open>
  C9, as stated, fails: the record of \<^verbatim>\<open>abc123\<close> is sent with the names
  of the select list, which has \<^verbatim>\<open>id\<close> and the column names \<^verbatim>\<open>total_clicks\<close>,
  \<^verbatim>\<open>last_clicked\<close>, \<^verbatim>\<open>created_at\<close>, not \<^verbatim>\<open>totalClicks\<close>, \<^verbatim>\<open>lastClicked\<close>,
  \<^verbatim>\<open>createdAt\<close>.
\<close>

theorem field_names_counterexample:
  "get_link (js ''abc123'') example_store = Json_resp 200 (row_json example_link)
   \<and> field_names (row_json example_link) =
       [''id'', ''code'', ''url'', ''email'', ''total_clicks'', ''last_clicked'', ''created_at'']
   \<and> field_names (row_json example_link) \<noteq>
       [''code'', ''url'', ''email'', ''totalClicks'', ''lastClicked'', ''createdAt'']"
  by (simp add: field_names_row_json get_link_def select_link_by_code_def example_store_def
      example_link_def)

text \<open>
  C9, amended. Every record sent by the creation response (201), the listing and the
  detail response (200) has exactly the fields \<^verbatim>\<open>id\<close>, \<^verbatim>\<open>code\<close>, \<^verbatim>\<open>url\<close>,
  \<^verbatim>\<open>email\<close>, \<^verbatim>\<open>total_clicks\<close>, \<^verbatim>\<open>last_clicked\<close>, \<^verbatim>\<open>created_at\<close>, in this order.
\<close>

theorem exposed_field_names:
  "(post_links P rnd now body st = (Json_resp 201 j, st') \<longrightarrow>
      field_names j =
        [''id'', ''code'', ''url'', ''email'', ''total_clicks'', ''last_clicked'', ''created_at''])
   \<and> (\<exists>rows. get_links e st = Json_resp 200 (JArr rows)
         \<and> list_all (\<lambda>j. field_names j =
              [''id'', ''code'', ''url'', ''email'', ''total_clicks'', ''last_clicked'', ''created_at''])
             rows)
   \<and> (get_link c st = Json_resp 200 j' \<longrightarrow>
      field_names j' =
        [''id'', ''code'', ''url'', ''email'', ''total_clicks'', ''last_clicked'', ''created_at''])"
proof (intro conjI impI)
  assume "post_links P rnd now body st = (Json_resp 201 j, st')"
  then obtain row where "j = row_json row" using post_links_201 by blast
  then show "field_names j =
        [''id'', ''code'', ''url'', ''email'', ''total_clicks'', ''last_clicked'', ''created_at'']"
    by (simp add: field_names_row_json)
next
  show "\<exists>rows. get_links e st = Json_resp 200 (JArr rows)
         \<and> list_all (\<lambda>j. field_names j =
              [''id'', ''code'', ''url'', ''email'', ''total_clicks'', ''last_clicked'', ''created_at''])
             rows"
    by (simp add: get_links_def list_all_iff field_names_row_json)
next
  assume "get_link c st = Json_resp 200 j'"
  then obtain row where "j' = row_json row"
    by (auto simp: get_link_def error_json_def split: list.splits)
  then show "field_names j' =
        [''id'', ''code'', ''url'', ''email'', ''total_clicks'', ''last_clicked'', ''created_at'']"
    by (simp add: field_names_row_json)
qed

theorem exposed_field_names_witness:
  "field_names (row_json (created_link 2))
     = [''id'', ''code'', ''url'', ''email'', ''total_clicks'', ''last_clicked'', ''created_at'']
   \<and> field_names (row_json example_link)
     = [''id'', ''code'', ''url'', ''email'', ''total_clicks'', ''last_clicked'', ''created_at'']"
  using exposed_field_names [of https_only "js ''0.4fzyo82mvyr''" 20 "example_body None"
      example_store "row_json (created_link 2)"
      "\<lparr>links = [example_link, created_link 2], links_id_seq = 3\<rparr>"
      None "js ''abc123''" "row_json example_link"]
    post_example_created
  by (simp add: get_link_def select_link_by_code_def example_store_def example_link_def)

section \<open>Listing\<close>

lemma newest_first_sorted:
  "sorted_wrt (\<lambda>a b. case created_at a of None \<Rightarrow> True
                       | Some x \<Rightarrow> (case created_at b of None \<Rightarrow> False | Some y \<Rightarrow> y \<le> x))
     (order_by_created_at_desc rs)"
proof -
  have "sorted (map created_key (sort_key created_key rs))" by simp
  then have "sorted_wrt (\<lambda>a b. created_key a \<le> created_key b) (sort_key created_key rs)"
    by (simp add: sorted_map)
  then have "sorted_wrt (\<lambda>a b. created_key b \<le> created_key a) (order_by_created_at_desc rs)"
    by (simp add: order_by_created_at_desc_def sorted_wrt_rev)
  then show ?thesis
    by (rule sorted_wrt_mono_rel[rotated]) (auto simp: created_key_def split: option.splits)
qed

lemma mset_order_by: "mset (order_by_created_at_desc rs) = mset rs"
  by (simp add: order_by_created_at_desc_def)

text \<open>
  C10. The listing answers 200 with the records of some rows \<open>rs\<close>, latest
  \<^verbatim>\<open>created_at\<close> first (a row without one before all others). When the \<^verbatim>\<open>email\<close>
  parameter is absent (or empty) \<open>rs\<close> are all the rows of the table, whoever owns them;
  only when it is supplied are \<open>rs\<close> the rows of that owner.
\<close>

theorem get_links_without_email:
  "\<exists>rs. get_links e st = Json_resp 200 (JArr (map row_json rs))
     \<and> sorted_wrt (\<lambda>a b. case created_at a of None \<Rightarrow> True
                       | Some x \<Rightarrow> (case created_at b of None \<Rightarrow> False | Some y \<Rightarrow> y \<le> x)) rs
     \<and> (\<not> truthy e \<longrightarrow> mset rs = mset (links st))
     \<and> (truthy e \<longrightarrow> mset rs = mset (filter (\<lambda>r. email r = to_string e) (links st)))"
proof (cases "truthy e")
  case True
  then show ?thesis
    by (intro exI[of _ "select_links_by_email (to_string e) st"])
      (simp add: get_links_def select_links_by_email_def newest_first_sorted mset_order_by)
next
  case False
  then show ?thesis
    by (intro exI[of _ "select_links st"])
      (simp add: get_links_def select_links_def newest_first_sorted mset_order_by)
qed

theorem get_links_without_email_witness:
  "get_links None two_links = Json_resp 200 (JArr [row_json other_link, row_json example_link])
   \<and> (\<exists>rs. get_links None two_links = Json_resp 200 (JArr (map row_json rs))
        \<and> mset rs = mset (links two_links))
   \<and> get_links (Some (js ''a@b.com'')) two_links = Json_resp 200 (JArr [row_json example_link])
   \<and> (\<exists>rs. get_links (Some (js ''a@b.com'')) two_links = Json_resp 200 (JArr (map row_json rs))
        \<and> mset rs = mset (filter (\<lambda>r. email r = js ''a@b.com'') (links two_links)))"
proof -
  have a: "get_links None two_links = Json_resp 200 (JArr [row_json other_link, row_json example_link])"
    by (simp add: get_links_def truthy_def select_links_def order_by_created_at_desc_def
        two_links_def created_key_def example_link_def other_link_def)
  have b: "\<exists>rs. get_links None two_links = Json_resp 200 (JArr (map row_json rs))
        \<and> mset rs = mset (links two_links)"
    using get_links_without_email [of None two_links] by (auto simp: truthy_def)
  have c: "get_links (Some (js ''a@b.com'')) two_links = Json_resp 200 (JArr [row_json example_link])"
    by (simp add: get_links_def truthy_def to_string_def select_links_by_email_def
        order_by_created_at_desc_def two_links_def created_key_def example_link_def
        other_link_def js_def)
  have d: "\<exists>rs. get_links (Some (js ''a@b.com'')) two_links = Json_resp 200 (JArr (map row_json rs))
        \<and> mset rs = mset (filter (\<lambda>r. email r = js ''a@b.com'') (links two_links))"
    using get_links_without_email [of "Some (js ''a@b.com'')" two_links]
    by (auto simp: truthy_def to_string_def js_def)
  from a b c d show ?thesis by blast
qed

section \<open>The click counter\<close>

lemma grows_refl: "grows st st"
  by (auto simp: grows_def list_all_iff list_ex_iff)

lemma grows_trans: "grows a b \<Longrightarrow> grows b c \<Longrightarrow> grows a c"
  unfolding grows_def list_all_iff list_ex_iff
  by (fastforce intro: order_trans)

lemma grows_counts:
  assumes "store_ok st" "grows st st'" "r \<in> set (links st)" "r' \<in> set (links st')"
    and "link_id r' = link_id r"
  shows "total_clicks r \<le> total_clicks r'"
proof -
  from assms(2,4) consider
      r0 where "r0 \<in> set (links st)" "link_id r0 = link_id r'" "total_clicks r0 \<le> total_clicks r'"
    | "links_id_seq st \<le> link_id r'"
    by (auto simp: grows_def list_all_iff list_ex_iff)
  then show ?thesis
  proof cases
    case 1
    from assms(1) have "inj_on link_id (set (links st))"
      by (simp add: store_ok_def distinct_map)
    with 1 assms(3,5) have "r0 = r" by (auto dest: inj_onD)
    with 1 show ?thesis by simp
  next
    case 2
    from assms(1,3) have "link_id r < links_id_seq st"
      by (auto simp: store_ok_def list_all_iff)
    with 2 assms(5) show ?thesis by simp
  qed
qed

lemma insert_link_ok:
  assumes "store_ok st" "insert_link c u e now st = (res, st')"
  shows "store_ok st' \<and> grows st st'"
proof -
  let ?st1 = "st\<lparr>links_id_seq := Suc (links_id_seq st)\<rparr>"
  have fail: "store_ok ?st1 \<and> grows st ?st1"
    using assms(1) by (auto simp: store_ok_def grows_def list_all_iff list_ex_iff)
  from assms(2) consider "st' = ?st1"
    | c' u' e' where "code_format c'" "\<not> list_ex (\<lambda>r. code r = c') (links st)"
        "st' = ?st1\<lparr>links := links st @ [\<lparr>link_id = links_id_seq st, code = c', target_url = u',
                            email = e', total_clicks = 0, last_clicked = None,
                            created_at = Some now\<rparr>]\<rparr>"
    by (auto simp: insert_link_def Let_def split: sum.splits option.splits if_splits)
  then show ?thesis
  proof cases
    case 1
    with fail show ?thesis by simp
  next
    case 2
    show ?thesis
      using assms(1) 2(1,2) unfolding 2(3)
      by (auto simp: store_ok_def grows_def list_all_iff list_ex_iff link_ok_def int4_max_def)
  qed
qed

lemma delete_link_by_code_ok:
  assumes "store_ok st" "delete_link_by_code c st = (n, st')"
  shows "store_ok st' \<and> grows st st'"
  using assms
  by (auto simp: delete_link_by_code_def store_ok_def grows_def list_all_iff list_ex_iff
      distinct_map_filter)

lemma map_click_ids: "map link_id (map (\<lambda>r. if code r = c then click now r else r) xs) = map link_id xs"
  by (induction xs) (auto simp: click_def)

lemma map_click_codes: "map code (map (\<lambda>r. if code r = c then click now r else r) xs) = map code xs"
  by (induction xs) (auto simp: click_def)

lemma update_clicks_ok:
  assumes "store_ok st" "update_clicks c now st = (res, st')"
  shows "store_ok st' \<and> grows st st'"
proof (cases "list_ex (\<lambda>r. code r = c \<and> int4_max < total_clicks r + 1) (links st)")
  case True
  with assms show ?thesis by (auto simp: update_clicks_def grows_refl)
next
  case False
  with assms(2) have st': "st' = st\<lparr>links := map (\<lambda>r. if code r = c then click now r else r) (links st)\<rparr>"
    by (auto simp: update_clicks_def)
  have ok: "store_ok st'"
    using assms(1) False unfolding st' store_ok_def
    by (simp add: map_click_ids map_click_codes del: map_map)
       (auto simp: list_all_iff list_ex_iff link_ok_def click_def)
  have "grows st st'"
  proof -
    define f where "f = (\<lambda>r. if code r = c then click now r else r)"
    have f: "link_id (f r) = link_id r \<and> total_clicks r \<le> total_clicks (f r)" for r
      by (simp add: f_def click_def)
    have g: "\<forall>r' \<in> set (map f (links st)).
               (\<exists>r \<in> set (links st). link_id r = link_id r' \<and> total_clicks r \<le> total_clicks r')
               \<or> links_id_seq st \<le> link_id r'"
    proof
      fix r' assume "r' \<in> set (map f (links st))"
      then obtain r where r: "r \<in> set (links st)" "r' = f r" by auto
      have "link_id r = link_id r' \<and> total_clicks r \<le> total_clicks r'"
        using f[of r] r(2) by simp
      with r(1) show "(\<exists>r \<in> set (links st). link_id r = link_id r' \<and> total_clicks r \<le> total_clicks r')
               \<or> links_id_seq st \<le> link_id r'" by blast
    qed
    have l: "links st' = map f (links st)" and q: "links_id_seq st' = links_id_seq st"
      by (simp_all add: st' f_def)
    show ?thesis
      unfolding grows_def list_all_iff list_ex_iff l q using g by blast
  qed
  with ok show ?thesis by simp
qed


lemma step_ok:
  assumes "store_ok st" "step P now th st = (th', st')"
  shows "store_ok st' \<and> grows st st'"
proof (cases th)
  case (Pending req)
  show ?thesis
  proof (cases req)
    case (Get_links e)
    with Pending assms show ?thesis by (auto simp: grows_refl)
  next
    case (Post_links rnd body)
    with Pending assms show ?thesis
      by (auto simp: post_links_def Let_def grows_refl
          split: if_splits prod.splits sum.splits dest: insert_link_ok)
  next
    case (Get_link c)
    with Pending assms show ?thesis by (auto simp: grows_refl)
  next
    case (Delete_link c)
    with Pending assms show ?thesis
      by (auto simp: delete_link_def split: prod.splits if_splits dest: delete_link_by_code_ok)
  next
    case (Redirect c)
    with Pending assms show ?thesis
      by (auto simp: grows_refl split: sum.splits)
  qed
next
  case (Awaiting_update c target)
  with assms show ?thesis
    by (auto simp: redirect_update_def split: prod.splits sum.splits dest: update_clicks_ok)
next
  case (Finished resp)
  with assms show ?thesis by (auto simp: grows_refl)
qed

lemma run_ok:
  "store_ok st \<Longrightarrow> run P es ths st = (ths', st') \<Longrightarrow> store_ok st' \<and> grows st st'"
proof (induction es arbitrary: ths st)
  case Nil
  then show ?case by (simp add: grows_refl)
next
  case (Cons ev es)
  obtain i now where ev: "ev = (i, now)" by (cases ev)
  show ?case
  proof (cases "i < length ths")
    case True
    obtain th1 st1 where s: "step P now (ths ! i) st = (th1, st1)" by (cases "step P now (ths ! i) st")
    with Cons.prems True ev have r: "run P es (ths[i := th1]) st1 = (ths', st')" by simp
    from step_ok[OF Cons.prems(1) s] have "store_ok st1" "grows st st1" by simp_all
    with Cons.IH[OF _ r] show ?thesis by (auto intro: grows_trans)
  next
    case False
    with Cons ev show ?thesis by simp
  qed
qed


lemma same_id_same_row:
  assumes "store_ok st" "r \<in> set (links st)" "r' \<in> set (links st)" "link_id r' = link_id r"
  shows "r' = r"
proof -
  from assms(1) have "inj_on link_id (set (links st))"
    by (simp add: store_ok_def distinct_map)
  with assms(2-4) show ?thesis by (auto dest: inj_onD)
qed

lemma insert_link_links:
  assumes "insert_link c u e now st = (res, st')"
  shows "links st' = links st
       \<or> (\<exists>row. res = Inr row \<and> links st' = links st @ [row] \<and> link_id row = links_id_seq st
             \<and> total_clicks row = 0 \<and> last_clicked row = None)"
  using assms
  by (auto simp: insert_link_def Let_def split: sum.splits option.splits if_splits)

lemma insert_link_Inl:
  "insert_link c u e now st = (Inl err, st') \<Longrightarrow> links st' = links st"
  by (auto simp: insert_link_def Let_def split: sum.splits option.splits if_splits)

lemma post_links_links:
  assumes "post_links P rnd now body st = (resp, st')"
  shows "links st' = links st
       \<or> (\<exists>row. resp = Json_resp 201 (row_json row) \<and> links st' = links st @ [row]
             \<and> link_id row = links_id_seq st
             \<and> total_clicks row = 0 \<and> last_clicked row = None)"
proof (cases "links st' = links st")
  case True
  then show ?thesis by simp
next
  case False
  let ?c = "if truthy (req_code body) then to_string (req_code body) else slice 2 10 rnd"
  obtain res st1 where ins: "insert_link ?c (req_url body) (req_email body) now st = (res, st1)"
    by (cases "insert_link ?c (req_url body) (req_email body) now st")
  from assms False have valid: "isValidUrl P (to_string (req_url body))"
      "isValidEmail (to_string (req_email body))"
      "\<not> (truthy (req_code body) \<and> \<not> isValidCode (to_string (req_code body)))"
    by (auto simp: post_links_def split: if_splits)
  show ?thesis
  proof (cases res)
    case (Inl err)
    with assms valid ins have "st' = st1"
      by (auto simp: post_links_def Let_def split: if_splits)
    with ins Inl False show ?thesis by (auto dest: insert_link_Inl)
  next
    case (Inr row)
    with assms valid ins have r: "resp = Json_resp 201 (row_json row)" "st' = st1"
      by (auto simp: post_links_def Let_def split: if_splits)
    from insert_link_links[OF ins] Inr False r(2)
    have "links st1 = links st @ [row] \<and> link_id row = links_id_seq st
             \<and> total_clicks row = 0 \<and> last_clicked row = None" by auto
    with r show ?thesis by simp
  qed
qed

lemma post_links_created:
  assumes "post_links P rnd now body st = (Json_resp 201 j, st')"
  shows "\<exists>row. j = row_json row \<and> links st' = links st @ [row]
             \<and> total_clicks row = 0 \<and> last_clicked row = None"
proof -
  let ?c = "if truthy (req_code body) then to_string (req_code body) else slice 2 10 rnd"
  obtain res st1 where ins: "insert_link ?c (req_url body) (req_email body) now st = (res, st1)"
    by (cases "insert_link ?c (req_url body) (req_email body) now st")
  from assms have valid: "isValidUrl P (to_string (req_url body))"
      "isValidEmail (to_string (req_email body))"
      "\<not> (truthy (req_code body) \<and> \<not> isValidCode (to_string (req_code body)))"
    by (auto simp: post_links_def split: if_splits)
  show ?thesis
  proof (cases res)
    case (Inl err)
    with assms valid ins show ?thesis
      by (auto simp: post_links_def Let_def split: if_splits)
  next
    case (Inr row)
    with assms valid ins have r: "j = row_json row" "st' = st1"
      by (auto simp: post_links_def Let_def split: if_splits)
    from insert_link_links[OF ins] Inr
    have "links st1 = links st @ [row] \<and> total_clicks row = 0 \<and> last_clicked row = None"
      using ins by (auto simp: insert_link_def Let_def split: sum.splits option.splits if_splits)
    with r show ?thesis by auto
  qed
qed

lemma redirect_302:
  assumes "redirect c now st = (Redirect_resp 302 target, st')"
  shows "list_ex (\<lambda>r. code r = c) (links st)
       \<and> links st' = map (\<lambda>r. if code r = c
                                then r\<lparr>total_clicks := total_clicks r + 1, last_clicked := Some now\<rparr>
                                else r) (links st)"
proof -
  from assms have sel: "select_link_by_code c st \<noteq> []"
    by (auto simp: redirect_def redirect_select_def split: list.splits)
  then have ex: "list_ex (\<lambda>r. code r = c) (links st)"
    by (auto simp: select_link_by_code_def list_ex_iff filter_empty_conv)
  from assms sel have "links st' = map (\<lambda>r. if code r = c then click now r else r) (links st)"
    by (auto simp: redirect_def redirect_select_def redirect_update_def update_clicks_def
        split: list.splits sum.splits if_splits prod.splits)
  with ex show ?thesis by (simp add: click_def)
qed

lemma step_keeps_rows:
  assumes "store_ok st" "step P now th st = (th', st')" "\<forall>c t. th \<noteq> Awaiting_update c t"
    and "r \<in> set (links st)" "r' \<in> set (links st')" "link_id r' = link_id r"
  shows "r' = r"
proof -
  have "r' \<in> set (links st)"
  proof (cases th)
    case (Pending req)
    show ?thesis
    proof (cases req)
      case (Post_links rnd body)
      obtain resp where "post_links P rnd now body st = (resp, st')"
        using assms(2) Pending Post_links by (auto split: prod.splits)
      from post_links_links[OF this] show ?thesis
      proof
        assume "links st' = links st" with assms(5) show ?thesis by simp
      next
        assume "\<exists>row. resp = Json_resp 201 (row_json row) \<and> links st' = links st @ [row]
             \<and> link_id row = links_id_seq st \<and> total_clicks row = 0 \<and> last_clicked row = None"
        then obtain row where row: "links st' = links st @ [row]" "link_id row = links_id_seq st"
          by blast
        from assms(1,4) have "link_id r < links_id_seq st"
          by (auto simp: store_ok_def list_all_iff)
        with row assms(5,6) show ?thesis by auto
      qed
    next
      case (Delete_link c)
      with Pending assms(2,5) show ?thesis
        by (auto simp: delete_link_def delete_link_by_code_def split: if_splits)
    qed (use Pending assms(2,5) in \<open>auto split: sum.splits\<close>)
  next
    case (Awaiting_update c t)
    with assms(3) show ?thesis by simp
  next
    case (Finished resp)
    with assms(2,5) show ?thesis by simp
  qed
  then show ?thesis using same_id_same_row[OF assms(1,4) _ assms(6)] by simp
qed


text \<open>
  C7, as stated, fails where it says the counter moves by exactly 1 per successful
  redirect: the handler's two queries can be parted. When the link is deleted between
  them the redirect is still answered 302 and no counter has moved; when the code is
  also taken by a new link in between, the redirect goes to the old destination and the
  new link, which nobody was redirected to, shows one click.
\<close>

theorem redirect_without_click_counterexample:
  "run https_only [(0, 30), (1, 31), (0, 32)]
     [Pending (Redirect (js ''abc123'')), Pending (Delete_link (js ''abc123''))] example_store
   = ([Finished (Redirect_resp 302 (js ''https://example.com'')), Finished (Send_resp 204 [])],
      \<lparr>links = [], links_id_seq = 2\<rparr>)
   \<and> run https_only [(0, 30), (1, 31), (2, 32), (0, 33), (3, 34)]
       [Pending (Redirect (js ''abc123'')), Pending (Delete_link (js ''abc123'')),
        Pending (Post_links (js ''0.4fzyo82mvyr'') other_body),
        Pending (Get_link (js ''abc123''))] example_store
     = ([Finished (Redirect_resp 302 (js ''https://example.com'')), Finished (Send_resp 204 []),
         Finished (Json_resp 201 (row_json replaced_link)),
         Finished (Json_resp 200
           (row_json (replaced_link\<lparr>total_clicks := 1, last_clicked := Some 33\<rparr>)))],
        \<lparr>links = [replaced_link\<lparr>total_clicks := 1, last_clicked := Some 33\<rparr>],
         links_id_seq = 3\<rparr>)"
  by (simp add: post_links_eval other_body_def replaced_link_def redirect_select_def
      redirect_update_def select_link_by_code_def update_clicks_def click_def int4_max_def
      delete_link_def delete_link_by_code_def get_link_def)

text \<open>
  C7, amended. The empty table satisfies the constraints, and every schedule of
  statements, of any requests in any order, keeps them: each counter stays a
  non-negative (32-bit) integer, and a row whose counter is 0 has no \<^verbatim>\<open>last_clicked\<close>.
  Across any such schedule a row (followed by its \<^verbatim>\<open>id\<close>) never has its counter
  lowered or reset. A created row starts with \<^verbatim>\<open>total_clicks = 0\<close> and no
  \<^verbatim>\<open>last_clicked\<close>. A redirect answered 302, run without another request's statement
  between its two queries, adds exactly 1 to the counter of the row with that code and
  sets its \<^verbatim>\<open>last_clicked\<close>. In any schedule the update statement of a redirect
  either adds exactly 1 to the rows that have the code when it runs (none, if the link
  is gone) and the redirect is answered 302, or fails on a counter at the largest
  32-bit integer and changes nothing. No other statement changes a row that stays in
  the table.
\<close>

theorem total_clicks_lifecycle:
  "store_ok empty_store
   \<and> (store_ok st \<and> run P es ths st = (ths', st') \<longrightarrow>
        store_ok st'
        \<and> (\<forall>r' \<in> set (links st').
              0 \<le> total_clicks r' \<and> (total_clicks r' = 0 \<longrightarrow> last_clicked r' = None))
        \<and> (\<forall>r \<in> set (links st). \<forall>r' \<in> set (links st').
              link_id r' = link_id r \<longrightarrow> total_clicks r \<le> total_clicks r'))
   \<and> (post_links P rnd now body st = (Json_resp 201 j, st1) \<longrightarrow>
        (\<exists>row. j = row_json row \<and> links st1 = links st @ [row]
           \<and> total_clicks row = 0 \<and> last_clicked row = None))
   \<and> (redirect c now st = (Redirect_resp 302 target, st2) \<longrightarrow>
        list_ex (\<lambda>r. code r = c) (links st)
        \<and> links st2 = map (\<lambda>r. if code r = c
                                 then r\<lparr>total_clicks := total_clicks r + 1, last_clicked := Some now\<rparr>
                                 else r) (links st))
   \<and> (step P now (Awaiting_update c target) st = (th4, st4) \<longrightarrow>
        (th4 = Finished (Redirect_resp 302 target)
         \<and> links st4 = map (\<lambda>r. if code r = c
                                  then r\<lparr>total_clicks := total_clicks r + 1, last_clicked := Some now\<rparr>
                                  else r) (links st))
        \<or> (th4 = Finished (Rejected Numeric_value_out_of_range) \<and> st4 = st))
   \<and> (store_ok st \<and> step P now th st = (th3, st3) \<and> (\<forall>c t. th \<noteq> Awaiting_update c t) \<longrightarrow>
        (\<forall>r \<in> set (links st). \<forall>r' \<in> set (links st3). link_id r' = link_id r \<longrightarrow> r' = r))"
proof (intro conjI impI)
  show "store_ok empty_store" by (simp add: store_ok_def empty_store_def)
next
  assume a: "store_ok st \<and> run P es ths st = (ths', st')"
  then have ok: "store_ok st'" and g: "grows st st'" using run_ok by blast+
  show "store_ok st'" by (rule ok)
  show "\<forall>r' \<in> set (links st').
              0 \<le> total_clicks r' \<and> (total_clicks r' = 0 \<longrightarrow> last_clicked r' = None)"
    using ok by (auto simp: store_ok_def list_all_iff link_ok_def)
  show "\<forall>r \<in> set (links st). \<forall>r' \<in> set (links st').
              link_id r' = link_id r \<longrightarrow> total_clicks r \<le> total_clicks r'"
    using a g grows_counts by blast
next
  assume "post_links P rnd now body st = (Json_resp 201 j, st1)"
  then show "\<exists>row. j = row_json row \<and> links st1 = links st @ [row]
           \<and> total_clicks row = 0 \<and> last_clicked row = None"
    by (rule post_links_created)
next
  assume r: "redirect c now st = (Redirect_resp 302 target, st2)"
  from redirect_302[OF r] show "list_ex (\<lambda>r. code r = c) (links st)" by simp
  from redirect_302[OF r] show "links st2 = map (\<lambda>r. if code r = c
                                 then r\<lparr>total_clicks := total_clicks r + 1, last_clicked := Some now\<rparr>
                                 else r) (links st)" by simp
next
  assume "step P now (Awaiting_update c target) st = (th4, st4)"
  then show "(th4 = Finished (Redirect_resp 302 target)
         \<and> links st4 = map (\<lambda>r. if code r = c
                                  then r\<lparr>total_clicks := total_clicks r + 1, last_clicked := Some now\<rparr>
                                  else r) (links st))
        \<or> (th4 = Finished (Rejected Numeric_value_out_of_range) \<and> st4 = st)"
    by (auto simp: redirect_update_def update_clicks_def click_def split: if_splits)
next
  assume "store_ok st \<and> step P now th st = (th3, st3) \<and> (\<forall>c t. th \<noteq> Awaiting_update c t)"
  then show "\<forall>r \<in> set (links st). \<forall>r' \<in> set (links st3). link_id r' = link_id r \<longrightarrow> r' = r"
    using step_keeps_rows by blast
qed

lemma run_example:
  "run https_only [(0, 20), (1, 30), (1, 31), (2, 40), (2, 41)]
     [Pending (Post_links (js ''0.4fzyo82mvyr'') (example_body None)),
      Pending (Redirect (js ''4fzyo82m'')), Pending (Redirect (js ''4fzyo82m''))] empty_store
   = ([Finished (Json_resp 201 (row_json (created_link 1))),
       Finished (Redirect_resp 302 (js ''https://example.com'')),
       Finished (Redirect_resp 302 (js ''https://example.com''))],
      \<lparr>links = [(created_link 1)\<lparr>total_clicks := 2, last_clicked := Some 41\<rparr>],
       links_id_seq = 2\<rparr>)"
  by (simp add: post_links_eval redirect_select_def redirect_update_def select_link_by_code_def
      update_clicks_def click_def int4_max_def)

lemma redirect_example:
  "redirect (js ''abc123'') 30 example_store =
     (Redirect_resp 302 (js ''https://example.com''),
      \<lparr>links = [example_link\<lparr>total_clicks := 1, last_clicked := Some 30\<rparr>], links_id_seq = 2\<rparr>)"
  by (simp add: redirect_def redirect_select_def redirect_update_def select_link_by_code_def
      update_clicks_def click_def int4_max_def example_store_def example_link_def js_def)

lemma update_step_example:
  "step https_only 30 (Awaiting_update (js ''abc123'') (js ''https://example.com'')) example_store =
     (Finished (Redirect_resp 302 (js ''https://example.com'')),
      \<lparr>links = [example_link\<lparr>total_clicks := 1, last_clicked := Some 30\<rparr>], links_id_seq = 2\<rparr>)"
  by (simp add: redirect_update_def update_clicks_def click_def int4_max_def example_store_def
      example_link_def js_def)

lemma post_step_example:
  "step https_only 20 (Pending (Post_links (js ''0.4fzyo82mvyr'') (example_body None))) example_store =
     (Finished (Json_resp 201 (row_json (created_link 2))),
      \<lparr>links = [example_link, created_link 2], links_id_seq = 3\<rparr>)"
  by (simp add: post_example_created)

lemma post_empty_example:
  "post_links https_only (js ''0.4fzyo82mvyr'') 20 (example_body None) empty_store =
     (Json_resp 201 (row_json (created_link 1)), \<lparr>links = [created_link 1], links_id_seq = 2\<rparr>)"
  by (simp add: post_links_eval)

lemma store_ok_example: "store_ok example_store"
  by (simp add: store_ok_def link_ok_def example_store_def example_link_def int4_max_def
      code_format_def code_pattern_def js_def)

theorem total_clicks_lifecycle_witness:
  "run https_only [(0, 20), (1, 30), (1, 31), (2, 40), (2, 41)]
     [Pending (Post_links (js ''0.4fzyo82mvyr'') (example_body None)),
      Pending (Redirect (js ''4fzyo82m'')), Pending (Redirect (js ''4fzyo82m''))] empty_store
   = ([Finished (Json_resp 201 (row_json (created_link 1))),
       Finished (Redirect_resp 302 (js ''https://example.com'')),
       Finished (Redirect_resp 302 (js ''https://example.com''))],
      \<lparr>links = [(created_link 1)\<lparr>total_clicks := 2, last_clicked := Some 41\<rparr>],
       links_id_seq = 2\<rparr>)
   \<and> store_ok \<lparr>links = [(created_link 1)\<lparr>total_clicks := 2, last_clicked := Some 41\<rparr>],
       links_id_seq = 2\<rparr>
   \<and> post_links https_only (js ''0.4fzyo82mvyr'') 20 (example_body None) empty_store =
       (Json_resp 201 (row_json (created_link 1)), \<lparr>links = [created_link 1], links_id_seq = 2\<rparr>)
   \<and> (\<exists>row. row_json (created_link 1) = row_json row \<and> [created_link 1] = [row]
          \<and> total_clicks row = 0 \<and> last_clicked row = None)
   \<and> redirect (js ''abc123'') 30 example_store =
       (Redirect_resp 302 (js ''https://example.com''),
        \<lparr>links = [example_link\<lparr>total_clicks := 1, last_clicked := Some 30\<rparr>], links_id_seq = 2\<rparr>)
   \<and> [example_link\<lparr>total_clicks := 1, last_clicked := Some 30\<rparr>] =
       map (\<lambda>r. if code r = js ''abc123''
                 then r\<lparr>total_clicks := total_clicks r + 1, last_clicked := Some 30\<rparr>
                 else r) [example_link]
   \<and> step https_only 20 (Pending (Post_links (js ''0.4fzyo82mvyr'') (example_body None)))
        example_store =
       (Finished (Json_resp 201 (row_json (created_link 2))),
        \<lparr>links = [example_link, created_link 2], links_id_seq = 3\<rparr>)
   \<and> list_all (\<lambda>r'. link_id r' = link_id example_link \<longrightarrow> r' = example_link)
        [example_link, created_link 2]"
proof -
  let ?final = "\<lparr>links = [(created_link 1)\<lparr>total_clicks := 2, last_clicked := Some 41\<rparr>],
       links_id_seq = 2\<rparr>"
  let ?clicked = "\<lparr>links = [example_link\<lparr>total_clicks := 1, last_clicked := Some 30\<rparr>],
       links_id_seq = 2\<rparr>"
  note t1 = total_clicks_lifecycle [where st = empty_store and P = https_only
      and es = "[(0, 20), (1, 30), (1, 31), (2, 40), (2, 41)]"
      and ths = "[Pending (Post_links (js ''0.4fzyo82mvyr'') (example_body None)),
          Pending (Redirect (js ''4fzyo82m'')), Pending (Redirect (js ''4fzyo82m''))]"
      and ths' = "[Finished (Json_resp 201 (row_json (created_link 1))),
          Finished (Redirect_resp 302 (js ''https://example.com'')),
          Finished (Redirect_resp 302 (js ''https://example.com''))]"
      and st' = ?final and rnd = "js ''0.4fzyo82mvyr''" and now = 20
      and body = "example_body None" and j = "row_json (created_link 1)"
      and ?st1.0 = "\<lparr>links = [created_link 1], links_id_seq = 2\<rparr>"]
  note t2 = total_clicks_lifecycle [where st = example_store and P = https_only
      and c = "js ''abc123''" and now = 30 and target = "js ''https://example.com''"
      and ?st2.0 = ?clicked
      and ?th4.0 = "Finished (Redirect_resp 302 (js ''https://example.com''))"
      and ?st4.0 = ?clicked]
  note t3 = total_clicks_lifecycle [where st = example_store and P = https_only and now = 20
      and th = "Pending (Post_links (js ''0.4fzyo82mvyr'') (example_body None))"
      and ?th3.0 = "Finished (Json_resp 201 (row_json (created_link 2)))"
      and ?st3.0 = "\<lparr>links = [example_link, created_link 2], links_id_seq = 3\<rparr>"]
  have ok: "store_ok ?final"
    using t1[THEN conjunct2, THEN conjunct1] t1[THEN conjunct1] run_example by blast
  have "\<exists>row. row_json (created_link 1) = row_json row
          \<and> links \<lparr>links = [created_link 1], links_id_seq = 2\<rparr> = links empty_store @ [row]
          \<and> total_clicks row = 0 \<and> last_clicked row = None"
    using t1[THEN conjunct2, THEN conjunct2, THEN conjunct1] post_empty_example by (rule mp)
  then have created: "\<exists>row. row_json (created_link 1) = row_json row \<and> [created_link 1] = [row]
          \<and> total_clicks row = 0 \<and> last_clicked row = None"
    by (simp add: empty_store_def)
  have "links ?clicked =
       map (\<lambda>r. if code r = js ''abc123''
                 then r\<lparr>total_clicks := total_clicks r + 1, last_clicked := Some 30\<rparr>
                 else r) (links example_store)"
    using t2[THEN conjunct2, THEN conjunct2, THEN conjunct2, THEN conjunct2, THEN conjunct1,
        THEN mp, OF update_step_example] by blast
  moreover have "list_ex (\<lambda>r. code r = js ''abc123'') (links example_store)"
    using t2[THEN conjunct2, THEN conjunct2, THEN conjunct2, THEN conjunct1, THEN mp,
        OF redirect_example] by (rule conjunct1)
  ultimately have clicked: "[example_link\<lparr>total_clicks := 1, last_clicked := Some 30\<rparr>] =
       map (\<lambda>r. if code r = js ''abc123''
                 then r\<lparr>total_clicks := total_clicks r + 1, last_clicked := Some 30\<rparr>
                 else r) [example_link]"
    by (simp only: store.simps example_store_def)
  have "\<forall>r \<in> set (links example_store).
          \<forall>r' \<in> set (links \<lparr>links = [example_link, created_link 2], links_id_seq = 3\<rparr>).
            link_id r' = link_id r \<longrightarrow> r' = r"
    using t3[THEN conjunct2, THEN conjunct2, THEN conjunct2, THEN conjunct2, THEN conjunct2]
      store_ok_example post_step_example by blast
  then have kept: "list_all (\<lambda>r'. link_id r' = link_id example_link \<longrightarrow> r' = example_link)
        [example_link, created_link 2]"
    by (simp add: example_store_def)
  from run_example ok post_empty_example created redirect_example clicked post_step_example kept
  show ?thesis by blast
qed

section \<open>Redirects in flight together\<close>























end
